theory Spec2Isabelle
  imports Complex_Main
begin

section \<open>The embedding service of \<^verbatim>\<open>app/core/embeddings.py\<close>\<close>

text \<open>
  The theory embeds \<^verbatim>\<open>EmbeddingService\<close>: the vector arithmetic
  (\<^verbatim>\<open>cosine_similarity\<close>, \<^verbatim>\<open>combine_embeddings\<close>), the ranking loop
  (\<^verbatim>\<open>semantic_search\<close>) and the two methods that talk to the embedding provider
  (\<^verbatim>\<open>embed_text\<close>, \<^verbatim>\<open>health_check\<close>).

  Conventions of the model:
  \<^item> a Python \<^verbatim>\<open>float\<close> is a \<open>double\<close>: NaN, the two infinities or a finite
    value, with the arithmetic of IEEE 754 binary64 (round to nearest, ties to even);
  \<^item> a Python \<^verbatim>\<open>int\<close> is an \<^typ>\<open>int\<close>; the index that \<^verbatim>\<open>enumerate\<close> produces is a
    \<^typ>\<open>nat\<close>;
  \<^item> a Python \<^verbatim>\<open>str\<close> is the list of its Unicode code points;
  \<^item> an exception is a value: the numeric functions return \<open>np_error + 'a\<close>, the provider
    methods return \<open>py_exception + 'a\<close>, with \<open>Inl\<close> for the raised exception;
  \<^item> the provider call and the logger are effects: they are recorded in an explicit
    \<open>world\<close> that every effectful method takes and returns.
\<close>

subsection \<open>Strings\<close>

type_synonym py_str = "nat list"

definition py :: "string \<Rightarrow> py_str" where
  "py s = map of_char s"

text \<open>
  The characters that \<^verbatim>\<open>str.strip()\<close> removes when it is called without an argument:
  those for which \<^verbatim>\<open>str.isspace\<close> holds (CPython's \<^verbatim>\<open>_PyUnicode_IsWhitespace\<close>).
\<close>

definition isspace :: "nat \<Rightarrow> bool" where
  "isspace c \<longleftrightarrow>
     (9 \<le> c \<and> c \<le> 13) \<or> (28 \<le> c \<and> c \<le> 32) \<or> c = 133 \<or> c = 160 \<or> c = 5760 \<or>
     (8192 \<le> c \<and> c \<le> 8202) \<or> c = 8232 \<or> c = 8233 \<or> c = 8239 \<or> c = 8287 \<or> c = 12288"

definition strip :: "py_str \<Rightarrow> py_str" where
  "strip s = rev (dropWhile isspace (rev (dropWhile isspace s)))"

subsection \<open>Floats\<close>

text \<open>
  The values of a double. A finite double is kept as the real number it stands for; the
  two zeros \<^verbatim>\<open>0.0\<close> and \<^verbatim>\<open>-0.0\<close> are the one value \<open>Fin 0\<close>, which Python's
  \<^verbatim>\<open>==\<close> and \<^verbatim>\<open><\<close> do not tell apart.
\<close>

datatype double = NaN | PInf | NInf | Fin real

text \<open>Rounding a real to the nearest integer, a tie to the even one.\<close>

definition round_even :: "real \<Rightarrow> int" where
  "round_even t =
     (let f = \<lfloor>t\<rfloor>; d = t - of_int f
      in if d < 1 / 2 then f
         else if 1 / 2 < d then f + 1
         else if even f then f else f + 1)"

text \<open>
  Rounding a real to a double: 53 significant bits, the least exponent \<open>-1022\<close> (below
  it the spacing of the subnormal numbers), and an infinity once the rounded magnitude
  reaches \<open>2 ^ 1024\<close>.
\<close>

definition rnd :: "real \<Rightarrow> double" where
  "rnd x =
     (if x = 0 then Fin 0
      else
        (let e = max \<lfloor>log 2 \<bar>x\<bar>\<rfloor> (- 1022);
             u = 2 powr (of_int e - 52);
             y = of_int (round_even (x / u)) * u
         in if 2 ^ 1024 \<le> \<bar>y\<bar> then (if 0 < x then PInf else NInf) else Fin y))"

definition negative :: "double \<Rightarrow> bool" where
  "negative a = (case a of NInf \<Rightarrow> True | Fin x \<Rightarrow> x < 0 | _ \<Rightarrow> False)"

definition infinite_double :: "double \<Rightarrow> bool" where
  "infinite_double a \<longleftrightarrow> a = PInf \<or> a = NInf"

text \<open>The operations \<^verbatim>\<open>+\<close>, \<^verbatim>\<open>*\<close>, \<^verbatim>\<open>/\<close> and \<^verbatim>\<open>sqrt\<close> of numpy's \<^verbatim>\<open>float64\<close>: the
  exact result rounded, and the rules of IEEE 754 for NaN and the infinities. numpy
  warns on overflow and on an invalid operation and does not raise. A zero divisor
  counts as \<^verbatim>\<open>0.0\<close>: the divisors of the service are products of norms and sums that
  a guard has compared with zero.\<close>

definition fadd :: "double \<Rightarrow> double \<Rightarrow> double" where
  "fadd a b =
     (case (a, b) of
        (Fin x, Fin y) \<Rightarrow> rnd (x + y)
      | _ \<Rightarrow>
          if a = NaN \<or> b = NaN then NaN
          else if infinite_double a \<and> infinite_double b \<and> a \<noteq> b then NaN
          else if infinite_double a then a else b)"

definition fmul :: "double \<Rightarrow> double \<Rightarrow> double" where
  "fmul a b =
     (case (a, b) of
        (Fin x, Fin y) \<Rightarrow> rnd (x * y)
      | _ \<Rightarrow>
          if a = NaN \<or> b = NaN \<or> a = Fin 0 \<or> b = Fin 0 then NaN
          else if negative a = negative b then PInf else NInf)"

definition fdiv :: "double \<Rightarrow> double \<Rightarrow> double" where
  "fdiv a b =
     (case (a, b) of
        (Fin x, Fin y) \<Rightarrow>
          if y = 0 then (if x = 0 then NaN else if 0 < x then PInf else NInf)
          else rnd (x / y)
      | _ \<Rightarrow>
          if a = NaN \<or> b = NaN then NaN
          else if infinite_double a \<and> infinite_double b then NaN
          else if infinite_double b then Fin 0
          else if negative a = negative b then PInf else NInf)"

definition fsqrt :: "double \<Rightarrow> double" where
  "fsqrt a =
     (case a of
        Fin x \<Rightarrow> if x < 0 then NaN else rnd (sqrt x)
      | PInf \<Rightarrow> PInf
      | _ \<Rightarrow> NaN)"

text \<open>Python's \<^verbatim>\<open><\<close> and \<^verbatim>\<open>==\<close> on floats: every comparison with NaN is false.\<close>

definition flt :: "double \<Rightarrow> double \<Rightarrow> bool" where
  "flt a b =
     (case (a, b) of
        (Fin x, Fin y) \<Rightarrow> x < y
      | (NInf, Fin y) \<Rightarrow> True
      | (NInf, PInf) \<Rightarrow> True
      | (Fin x, PInf) \<Rightarrow> True
      | _ \<Rightarrow> False)"

definition feq :: "double \<Rightarrow> double \<Rightarrow> bool" where
  "feq a b \<longleftrightarrow> a \<noteq> NaN \<and> a = b"

subsection \<open>numpy on lists of floats\<close>

text \<open>
  The exceptions numpy raises on the paths the service takes: \<^verbatim>\<open>ValueError\<close> when the
  shapes of two arrays do not fit (or when a nested list is ragged), and
  \<^verbatim>\<open>ZeroDivisionError\<close> when the weights of \<^verbatim>\<open>np.average\<close> sum to zero.
\<close>

datatype np_error = ValueError | ZeroDivisionError

text \<open>The inner product of two arrays of one length: the rounded products, added up
  from \<^verbatim>\<open>0.0\<close> in the order of the entries. The order in which the BLAS routine behind
  \<^verbatim>\<open>np.dot\<close> adds is its own; no proof below looks into it, and the inputs that are
  evaluated have exact sums.\<close>

definition dot_value :: "double list \<Rightarrow> double list \<Rightarrow> double" where
  "dot_value a b = foldl (\<lambda>acc (x, y). fadd acc (fmul x y)) (Fin 0) (zip a b)"

text \<open>\<^verbatim>\<open>np.dot\<close> of two one-dimensional arrays: defined only for equal lengths.\<close>

definition np_dot :: "double list \<Rightarrow> double list \<Rightarrow> np_error + double" where
  "np_dot a b =
     (if length a \<noteq> length b then Inl ValueError
      else Inr (dot_value a b))"

text \<open>\<^verbatim>\<open>np.linalg.norm\<close> of a one-dimensional array: the square root of the inner
  product of the array with itself.\<close>

definition np_linalg_norm :: "double list \<Rightarrow> double" where
  "np_linalg_norm a = fsqrt (dot_value a a)"

text \<open>\<^verbatim>\<open>np.array\<close> of a non-empty list of lists builds a two-dimensional array only
  when all rows have one length; a ragged list raises \<^verbatim>\<open>ValueError\<close> (numpy 1.24 and
  later).\<close>

definition rectangular :: "double list list \<Rightarrow> bool" where
  "rectangular rows \<longleftrightarrow> (\<forall>r \<in> set rows. length r = length (hd rows))"

text \<open>The sum of a non-empty array along its axis: from the first entry on.\<close>

definition np_sum :: "double list \<Rightarrow> double" where
  "np_sum xs = foldl fadd (hd xs) (tl xs)"

text \<open>\<^verbatim>\<open>np.mean(a, axis=0)\<close> on \<open>n \<ge> 1\<close> rows of one length: per column, the sum of the
  column divided by \<open>n\<close>.\<close>

definition np_mean_axis0 :: "double list list \<Rightarrow> double list" where
  "np_mean_axis0 rows =
     map (\<lambda>j. fdiv (np_sum (map (\<lambda>r. r ! j) rows)) (rnd (real (length rows))))
       [0 ..< length (hd rows)]"

text \<open>\<^verbatim>\<open>np.average(a, axis=0, weights=w)\<close> with one-dimensional weights: the weights
  must be one per row, their sum must not be zero, and the result is, per column, the sum
  of entry times weight divided by the sum of the weights.\<close>

definition np_average_axis0 :: "double list list \<Rightarrow> double list \<Rightarrow> np_error + double list" where
  "np_average_axis0 rows ws =
     (if length ws \<noteq> length rows then Inl ValueError
      else if np_sum ws = Fin 0 then Inl ZeroDivisionError
      else Inr (map (\<lambda>j. fdiv (np_sum (map2 (\<lambda>r w. fmul (r ! j) w) rows ws)) (np_sum ws))
                  [0 ..< length (hd rows)]))"

subsection \<open>Vector arithmetic of the service\<close>

definition cosine_similarity :: "double list \<Rightarrow> double list \<Rightarrow> np_error + double" where
  "cosine_similarity vec1 vec2 =
     (case np_dot vec1 vec2 of
        Inl e \<Rightarrow> Inl e
      | Inr dot_product \<Rightarrow>
          (let magnitude1 = np_linalg_norm vec1;
               magnitude2 = np_linalg_norm vec2
           in if magnitude1 = Fin 0 \<or> magnitude2 = Fin 0 then Inr (Fin 0)
              else Inr (fdiv dot_product (fmul magnitude1 magnitude2))))"

definition combine_embeddings ::
    "double list list \<Rightarrow> double list option \<Rightarrow> np_error + double list" where
  "combine_embeddings embeddings weights =
     (if embeddings = [] then Inr []
      else if \<not> rectangular embeddings then Inl ValueError
      else (case weights of
              None \<Rightarrow> Inr (np_mean_axis0 embeddings)
            | Some ws \<Rightarrow> np_average_axis0 embeddings ws))"

subsection \<open>Ranking\<close>

text \<open>The loop of \<^verbatim>\<open>semantic_search\<close> over \<^verbatim>\<open>enumerate(candidate_embeddings)\<close>: it
  scores the candidates in order and stops at the first one that raises.\<close>

fun similarities_from ::
    "double list \<Rightarrow> nat \<Rightarrow> double list list \<Rightarrow> np_error + (nat \<times> double) list" where
  "similarities_from q i [] = Inr []"
| "similarities_from q i (c # cs) =
     (case cosine_similarity q c of
        Inl e \<Rightarrow> Inl e
      | Inr similarity \<Rightarrow>
          (case similarities_from q (Suc i) cs of
             Inl e \<Rightarrow> Inl e
           | Inr rest \<Rightarrow> Inr ((i, similarity) # rest)))"

text \<open>\<^verbatim>\<open>list.sort(key=lambda x: x[1], reverse=True)\<close>: a stable sort that compares the
  scores with \<^verbatim>\<open><\<close> only. With \<^verbatim>\<open>reverse=True\<close> CPython reverses the list, sorts it
  stably in ascending order and reverses it again, so equal scores keep their original
  order. The ascending sort is an insertion sort here: an entry goes in front of the
  first entry that is not less than it. Where \<^verbatim>\<open><\<close> orders the scores totally, every
  stable sort returns this list; with a NaN among the scores the order that is left
  depends on the algorithm.\<close>

fun insort_score :: "nat \<times> double \<Rightarrow> (nat \<times> double) list \<Rightarrow> (nat \<times> double) list" where
  "insort_score x [] = [x]"
| "insort_score x (y # ys) =
     (if flt (snd y) (snd x) then y # insort_score x ys else x # y # ys)"

definition sort_desc :: "(nat \<times> double) list \<Rightarrow> (nat \<times> double) list" where
  "sort_desc xs = rev (foldr insort_score (rev xs) [])"

text \<open>The slice \<^verbatim>\<open>xs[:k]\<close>: a negative \<open>k\<close> counts from the end.\<close>

definition slice_to :: "'a list \<Rightarrow> int \<Rightarrow> 'a list" where
  "slice_to xs k =
     (if 0 \<le> k then take (nat k) xs
      else take (nat (int (length xs) + k)) xs)"

definition semantic_search ::
    "double list \<Rightarrow> double list list \<Rightarrow> int \<Rightarrow> np_error + (nat \<times> double) list" where
  "semantic_search query_embedding candidate_embeddings top_k =
     (if candidate_embeddings = [] then Inr []
      else (case similarities_from query_embedding 0 candidate_embeddings of
              Inl e \<Rightarrow> Inl e
            | Inr similarities \<Rightarrow> Inr (slice_to (sort_desc similarities) top_k)))"

text \<open>The order the ranking promises: a higher score first, and the lower index first
  among equal scores.\<close>

definition ranked_before :: "nat \<times> double \<Rightarrow> nat \<times> double \<Rightarrow> bool" where
  "ranked_before a b \<longleftrightarrow>
     flt (snd b) (snd a) \<or> (feq (snd a) (snd b) \<and> fst a < fst b)"

subsection \<open>Computations without rounding error\<close>



subsection \<open>The provider and the logger\<close>

text \<open>An exception raised by the provider: an instance of \<^verbatim>\<open>Exception\<close>, with the
  text that \<^verbatim>\<open>str(e)\<close> gives. Signals that derive from \<^verbatim>\<open>BaseException\<close> only
  (a keyboard interrupt, the cancellation of the task) are not modelled.\<close>

datatype py_exception = PyException (str_of: py_str)

datatype log_level = DEBUG | INFO | WARNING | ERROR

datatype log_record = Log log_level py_str

record world =
  provider_calls :: "py_str list"
  logged :: "log_record list"

record Settings =
  openai_model :: py_str
  embedding_dimensions :: int

text \<open>The service object: \<^verbatim>\<open>aembed_query\<close> of its \<^verbatim>\<open>OpenAIEmbeddings\<close> instance, which is
  outside the repository and therefore a parameter, and the dimension that
  \<^verbatim>\<open>__init__\<close> copies from the settings.\<close>

record EmbeddingService =
  aembed_query :: "py_str \<Rightarrow> py_exception + double list"
  dimensions :: int

definition init :: "Settings \<Rightarrow> (py_str \<Rightarrow> py_exception + double list) \<Rightarrow> EmbeddingService" where
  "init settings provider =
     \<lparr>aembed_query = provider, dimensions = embedding_dimensions settings\<rparr>"

definition log_call :: "log_level \<Rightarrow> py_str \<Rightarrow> world \<Rightarrow> world" where
  "log_call lvl msg w = w\<lparr>logged := logged w @ [Log lvl msg]\<rparr>"

definition embed_text :: "EmbeddingService \<Rightarrow> py_str \<Rightarrow> world \<Rightarrow> (py_exception + double list) \<times> world" where
  "embed_text self text w =
     (if strip text = [] then
        (Inr (replicate (nat (dimensions self)) (Fin 0)),
         log_call WARNING (py ''Empty text provided for embedding'') w)
      else
        (let w1 = w\<lparr>provider_calls := provider_calls w @ [text]\<rparr>
         in case aembed_query self text of
              Inr embedding \<Rightarrow>
                (Inr embedding,
                 log_call DEBUG (py ''Generated embedding for text: '' @ take 50 text @ py ''...'') w1)
            | Inl e \<Rightarrow>
                (Inl e, log_call ERROR (py ''Error generating embedding: '' @ str_of e) w1)))"

text \<open>The dictionary \<^verbatim>\<open>health_check\<close> returns, in insertion order.\<close>

datatype py_value = PyStr py_str | PyInt int

type_synonym py_dict = "(string \<times> py_value) list"

definition health_check ::
    "Settings \<Rightarrow> EmbeddingService \<Rightarrow> world \<Rightarrow> (py_exception + py_dict) \<times> world" where
  "health_check settings self w =
     (case embed_text self (py ''health check'') w of
        (Inr test_embedding, w1) \<Rightarrow>
          (Inr [(''status'', PyStr (py ''healthy'')),
                (''model'', PyStr (openai_model settings)),
                (''dimensions'', PyInt (dimensions self)),
                (''test_embedding_length'', PyInt (int (length test_embedding)))],
           w1)
      | (Inl e, w1) \<Rightarrow>
          (Inr [(''status'', PyStr (py ''unhealthy'')),
                (''error'', PyStr (str_of e)),
                (''model'', PyStr (openai_model settings)),
                (''dimensions'', PyInt (dimensions self))],
           log_call ERROR (py ''Health check failed: '' @ str_of e) w1))"

section \<open>Rounding\<close>

lemma round_even_int [simp]: "round_even (of_int k) = k"
  by (simp add: round_even_def)

lemma round_even_bounds: "\<lfloor>t\<rfloor> \<le> round_even t \<and> round_even t \<le> \<lfloor>t\<rfloor> + 1"
  by (simp add: round_even_def Let_def)

lemma rnd_0 [simp]: "rnd 0 = Fin 0"
  by (simp add: rnd_def)

lemma floor_log2_pow: "\<lfloor>log 2 \<bar>(2::real) ^ n\<bar>\<rfloor> = int n"
  by simp

lemma pow_div_powr: "(2::real) ^ n / 2 powr (of_int (int n) - 52) = of_int (2 ^ 52)"
proof -
  have "(2::real) powr (of_int (int n) - 52) = 2 ^ n / 2 ^ 52"
    by (simp add: powr_diff powr_realpow del: power_numeral)
  then show ?thesis by (simp del: power_numeral)
qed


lemma floor_log2_eq:
  assumes "2 powr of_int e \<le> \<bar>x\<bar>" and "\<bar>x\<bar> < 2 powr (of_int e + 1)"
  shows "\<lfloor>log 2 \<bar>x\<bar>\<rfloor> = e"
proof -
  have pos: "0 < \<bar>x\<bar>" using assms(1) by (smt (verit) powr_gt_zero)
  have "of_int e \<le> log 2 \<bar>x\<bar>"
    using assms(1) pos by (simp add: le_log_iff)
  moreover have "log 2 \<bar>x\<bar> < of_int e + 1"
    using assms(2) pos by (simp add: log_less_iff)
  ultimately show ?thesis by (simp add: floor_eq_iff)
qed

lemma rnd_eval:
  assumes "2 powr of_int e \<le> \<bar>x\<bar>" and "\<bar>x\<bar> < 2 powr (of_int e + 1)" and "- 1022 \<le> e"
  shows "rnd x =
     (let u = 2 powr (of_int e - 52); y = of_int (round_even (x / u)) * u
      in if 2 ^ 1024 \<le> \<bar>y\<bar> then (if 0 < x then PInf else NInf) else Fin y)"
proof -
  have nz: "x \<noteq> 0" using assms(1) by (smt (verit) powr_gt_zero)
  have "\<lfloor>log 2 \<bar>x\<bar>\<rfloor> = e" using assms(1,2) by (rule floor_log2_eq)
  with assms(3) have "max \<lfloor>log 2 \<bar>x\<bar>\<rfloor> (- 1022) = e" by simp
  with nz show ?thesis by (simp add: rnd_def)
qed


lemma rnd_pow2:
  assumes "n \<le> 1023"
  shows "rnd (2 ^ n) = Fin (2 ^ n)"
proof -
  have p: "(2::real) powr of_int (int n) = 2 ^ n"
    by (simp add: powr_realpow)
  have lo: "2 powr of_int (int n) \<le> \<bar>(2::real) ^ n\<bar>" using p by simp
  have "(2::real) powr (of_int (int n) + 1) = 2 ^ n * 2"
    unfolding powr_add p by simp
  then have hi: "\<bar>(2::real) ^ n\<bar> < 2 powr (of_int (int n) + 1)"
    by simp
  have p': "(2::real) powr real n = 2 ^ n"
    by (simp add: powr_realpow)
  have y: "of_int (2 ^ 52) * 2 powr (of_int (int n) - 52) = (2::real) ^ n"
    by (simp add: powr_diff p' del: power_numeral)
  have "(2::real) ^ n < 2 ^ 1024"
    using assms by (intro power_strict_increasing) simp_all
  then have small: "\<not> (2::real) ^ 1024 \<le> \<bar>2 ^ n\<bar>" by simp
  have "rnd (2 ^ n) =
     (let u = 2 powr (of_int (int n) - 52); y = of_int (round_even (2 ^ n / u)) * u
      in if 2 ^ 1024 \<le> \<bar>y\<bar> then (if 0 < (2::real) ^ n then PInf else NInf) else Fin y)"
    using lo hi by (rule rnd_eval) simp
  then show ?thesis
    unfolding Let_def pow_div_powr round_even_int y using small by simp
qed

lemma rnd_overflow:
  assumes "2 ^ 1024 \<le> x"
  shows "rnd x = PInf"
proof -
  have pos: "0 < x" using assms by (smt (verit) zero_less_power)
  define e where "e = \<lfloor>log 2 \<bar>x\<bar>\<rfloor>"
  have "1024 \<le> log 2 x"
    using assms pos by (simp add: le_log_iff)
  then have e_ge: "1024 \<le> e" unfolding e_def using pos by (simp add: le_floor_iff)
  then have emax: "max e (- 1022) = e" by simp
  define u where "u = (2::real) powr (of_int e - 52)"
  have u_pos: "0 < u" by (simp add: u_def)
  have "of_int e \<le> log 2 x" unfolding e_def using pos by simp
  then have lo: "2 powr of_int e \<le> x" using pos by (simp add: powr_le_iff)
  have "2 powr of_int e / u = 2 powr 52" by (simp add: u_def powr_diff)
  then have "2 powr 52 \<le> x / u" using lo u_pos by (metis divide_right_mono less_imp_le)
  moreover have "(2::real) powr 52 = of_int (2 ^ 52)"
    by (simp add: powr_realpow [symmetric])
  ultimately have "of_int (2 ^ 52) \<le> x / u" by simp
  then have "2 ^ 52 \<le> \<lfloor>x / u\<rfloor>" by (simp only: le_floor_iff)
  then have "2 ^ 52 \<le> round_even (x / u)" using round_even_bounds [of "x / u"] by linarith
  then have "(2::real) ^ 52 \<le> of_int (round_even (x / u))"
    by (metis of_int_le_iff of_int_numeral of_int_power)
  then have "2 ^ 52 * u \<le> of_int (round_even (x / u)) * u"
    using u_pos by (simp add: mult_right_mono)
  moreover have "2 ^ 52 * u = 2 powr of_int e"
    by (simp add: u_def powr_diff powr_realpow [symmetric])
  moreover have "(2::real) ^ 1024 \<le> 2 powr of_int e"
  proof -
    have "(2::real) powr real (1024::nat) \<le> 2 powr of_int e"
      using e_ge by (intro powr_mono) simp_all
    moreover have "(2::real) powr real (1024::nat) = 2 ^ 1024"
      by (rule powr_realpow) simp
    ultimately show ?thesis by simp
  qed
  ultimately have big: "2 ^ 1024 \<le> \<bar>of_int (round_even (x / u)) * u\<bar>" by linarith
  have nz: "x \<noteq> 0" using pos by simp
  show ?thesis
    using nz pos big emax unfolding rnd_def Let_def e_def [symmetric] u_def
    by simp
qed

lemma rnd_1 [simp]: "rnd 1 = Fin 1"
  using rnd_pow2 [of 0] by simp













section \<open>Cosine similarity\<close>

lemma cosine_similarity_mismatch:
  "length a \<noteq> length b \<Longrightarrow> cosine_similarity a b = Inl ValueError"
  by (simp add: cosine_similarity_def np_dot_def)

lemma cosine_similarity_returns:
  "length a = length b \<Longrightarrow> \<exists>s. cosine_similarity a b = Inr s"
  by (simp add: cosine_similarity_def np_dot_def Let_def)

text \<open>
  Claim C7. When the two vectors differ in length, \<^verbatim>\<open>cosine_similarity\<close> raises the
  \<^verbatim>\<open>ValueError\<close> of \<^verbatim>\<open>np.dot\<close> (the dimension-mismatch error of the service); it
  returns a value only when the lengths are equal.
\<close>

theorem cosine_similarity_dimension_mismatch:
  "(length a \<noteq> length b \<longrightarrow> cosine_similarity a b = Inl ValueError) \<and>
   ((\<exists>s. cosine_similarity a b = Inr s) \<longrightarrow> length a = length b)"
proof (cases "length a = length b")
  case True
  then show ?thesis by simp
next
  case False
  then have "cosine_similarity a b = Inl ValueError"
    by (rule cosine_similarity_mismatch)
  with False show ?thesis by simp
qed

theorem cosine_similarity_dimension_mismatch_witness:
  "length [Fin 1, Fin 2] \<noteq> length [Fin 1, Fin 2, Fin 3] \<and>
   cosine_similarity [Fin 1, Fin 2] [Fin 1, Fin 2, Fin 3] = Inl ValueError \<and>
   (\<exists>s. cosine_similarity [Fin 3, Fin 4] [Fin 4, Fin 3] = Inr s) \<and>
   length [Fin 3, Fin 4] = length [Fin 4, Fin 3]"
  using cosine_similarity_dimension_mismatch [of "[Fin 1, Fin 2]" "[Fin 1, Fin 2, Fin 3]"]
    cosine_similarity_dimension_mismatch [of "[Fin 3, Fin 4]" "[Fin 4, Fin 3]"]
    cosine_similarity_returns [of "[Fin 3, Fin 4]" "[Fin 4, Fin 3]"]
  by simp

text \<open>
  Claim C2. For two vectors of equal length, when either magnitude that the code computes
  is zero, \<^verbatim>\<open>cosine_similarity\<close> returns \<open>0.0\<close> and raises nothing.
\<close>

theorem cosine_similarity_zero_magnitude:
  "length a = length b \<Longrightarrow> np_linalg_norm a = Fin 0 \<or> np_linalg_norm b = Fin 0 \<Longrightarrow>
     cosine_similarity a b = Inr (Fin 0)"
  by (auto simp: cosine_similarity_def np_dot_def Let_def)

theorem cosine_similarity_zero_magnitude_witness:
  "length [Fin 0, Fin 0] = length [Fin 1, Fin 0] \<and>
   (np_linalg_norm [Fin 0, Fin 0] = Fin 0 \<or> np_linalg_norm [Fin 1, Fin 0] = Fin 0) \<and>
   cosine_similarity [Fin 0, Fin 0] [Fin 1, Fin 0] = Inr (Fin 0)"
  using cosine_similarity_zero_magnitude [of "[Fin 0, Fin 0]" "[Fin 1, Fin 0]"]
  by (simp add: np_linalg_norm_def dot_value_def fmul_def fadd_def fsqrt_def)

section \<open>Ranking\<close>

lemma similarities_from_returns:
  "\<forall>c \<in> set cs. length c = length q \<Longrightarrow> \<exists>sims. similarities_from q i cs = Inr sims"
proof (induction cs arbitrary: i)
  case Nil
  then show ?case by simp
next
  case (Cons c cs)
  from Cons.prems have "length q = length c" by simp
  then obtain s where s: "cosine_similarity q c = Inr s"
    using cosine_similarity_returns by blast
  from Cons.prems have "\<forall>c \<in> set cs. length c = length q" by simp
  then obtain rest where "similarities_from q (Suc i) cs = Inr rest"
    using Cons.IH by blast
  with s show ?case by simp
qed

lemma similarities_from_Inr:
  "similarities_from q i cs = Inr sims \<Longrightarrow>
     map fst sims = [i ..< i + length cs] \<and>
     (\<forall>j < length cs. cosine_similarity q (cs ! j) = Inr (snd (sims ! j)))"
proof (induction cs arbitrary: i sims)
  case Nil
  then show ?case by simp
next
  case (Cons c cs)
  from Cons.prems obtain s rest where
    s: "cosine_similarity q c = Inr s" and
    rest: "similarities_from q (Suc i) cs = Inr rest" and
    sims: "sims = (i, s) # rest"
    by (auto split: sum.splits)
  from Cons.IH [OF rest] have
    ih1: "map fst rest = [Suc i ..< Suc i + length cs]" and
    ih2: "\<forall>j < length cs. cosine_similarity q (cs ! j) = Inr (snd (rest ! j))"
    by simp_all
  have "map fst sims = [i ..< i + length (c # cs)]"
    using sims ih1 by (simp add: upt_rec)
  moreover have "\<forall>j < length (c # cs). cosine_similarity q ((c # cs) ! j) = Inr (snd (sims ! j))"
    using sims s ih2 by (auto simp: nth_Cons split: nat.splits)
  ultimately show ?case by simp
qed

lemma similarities_from_length:
  "similarities_from q i cs = Inr sims \<Longrightarrow> length sims = length cs"
  using similarities_from_Inr [of q i cs sims] by (metis length_map length_upt add_diff_cancel_left')

lemma similarities_from_members:
  assumes "similarities_from q 0 cs = Inr sims" and "(i, s) \<in> set sims"
  shows "i < length cs \<and> cosine_similarity q (cs ! i) = Inr s"
proof -
  from assms(1) have fsts: "map fst sims = [0 ..< length cs]"
    and scores: "\<forall>j < length cs. cosine_similarity q (cs ! j) = Inr (snd (sims ! j))"
    using similarities_from_Inr [of q 0 cs sims] by simp_all
  from assms(1) have len: "length sims = length cs" by (rule similarities_from_length)
  from assms(2) obtain j where j: "j < length sims" "sims ! j = (i, s)"
    by (auto simp: in_set_conv_nth)
  have "fst (sims ! j) = [0 ..< length cs] ! j"
    using j(1) fsts by (metis nth_map)
  with j len have "i = j" by simp
  with j len scores show ?thesis by auto
qed

text \<open>The comparison \<^verbatim>\<open><\<close> is a strict total order on the doubles other than NaN.\<close>

lemma flt_trans: "flt a b \<Longrightarrow> flt b c \<Longrightarrow> flt a c"
  by (auto simp: flt_def split: double.splits)

lemma flt_total: "a \<noteq> NaN \<Longrightarrow> b \<noteq> NaN \<Longrightarrow> flt a b \<or> a = b \<or> flt b a"
  by (auto simp: flt_def split: double.splits)

lemma flt_irrefl: "\<not> flt a a"
  by (auto simp: flt_def split: double.splits)

lemma set_insort_score: "set (insort_score x ys) = insert x (set ys)"
  by (induction ys) auto

lemma length_insort_score: "length (insort_score x ys) = Suc (length ys)"
  by (induction ys) auto

lemma set_foldr_insort_score: "set (foldr insort_score xs []) = set xs"
  by (induction xs) (simp_all add: set_insort_score)

lemma length_foldr_insort_score: "length (foldr insort_score xs []) = length xs"
  by (induction xs) (simp_all add: length_insort_score)

lemma set_sort_desc: "set (sort_desc xs) = set xs"
  by (simp add: sort_desc_def set_foldr_insort_score)

lemma length_sort_desc: "length (sort_desc xs) = length xs"
  by (simp add: sort_desc_def length_foldr_insort_score)

lemma insort_score_refines:
  assumes "sorted_wrt (\<lambda>a b. flt (snd a) (snd b) \<or> (snd a = snd b \<and> R a b)) ys"
      and "\<forall>z \<in> set ys. R x z"
      and "snd x \<noteq> NaN" and "\<forall>z \<in> set ys. snd z \<noteq> NaN"
  shows "sorted_wrt (\<lambda>a b. flt (snd a) (snd b) \<or> (snd a = snd b \<and> R a b)) (insort_score x ys)"
  using assms
proof (induction ys)
  case Nil
  then show ?case by simp
next
  case (Cons y ys)
  show ?case
  proof (cases "flt (snd y) (snd x)")
    case False
    have "\<forall>z \<in> set (y # ys). flt (snd x) (snd z) \<or> (snd x = snd z \<and> R x z)"
    proof
      fix z assume z: "z \<in> set (y # ys)"
      have xy: "flt (snd x) (snd y) \<or> snd x = snd y"
        using False flt_total [of "snd x" "snd y"] Cons.prems(3,4) by auto
      have yz: "flt (snd y) (snd z) \<or> snd y = snd z"
        using z Cons.prems(1) by auto
      have "flt (snd x) (snd z) \<or> snd x = snd z"
        using xy yz flt_trans by metis
      moreover have "R x z" using Cons.prems(2) z by blast
      ultimately show "flt (snd x) (snd z) \<or> (snd x = snd z \<and> R x z)" by auto
    qed
    with False Cons.prems(1) show ?thesis by simp
  next
    case True
    from Cons.prems have "sorted_wrt (\<lambda>a b. flt (snd a) (snd b) \<or> (snd a = snd b \<and> R a b))
        (insort_score x ys)"
      by (intro Cons.IH) simp_all
    moreover have "\<forall>z \<in> set (insort_score x ys).
        flt (snd y) (snd z) \<or> (snd y = snd z \<and> R y z)"
      using True Cons.prems(1) by (auto simp: set_insort_score)
    ultimately show ?thesis using True by simp
  qed
qed

lemma foldr_insort_score_refines:
  "sorted_wrt R xs \<Longrightarrow> \<forall>z \<in> set xs. snd z \<noteq> NaN \<Longrightarrow>
     sorted_wrt (\<lambda>a b. flt (snd a) (snd b) \<or> (snd a = snd b \<and> R a b))
       (foldr insort_score xs [])"
proof (induction xs)
  case Nil
  then show ?case by simp
next
  case (Cons x xs)
  then have "sorted_wrt (\<lambda>a b. flt (snd a) (snd b) \<or> (snd a = snd b \<and> R a b))
      (foldr insort_score xs [])"
    and "\<forall>z \<in> set (foldr insort_score xs []). R x z"
    and "snd x \<noteq> NaN"
    and "\<forall>z \<in> set (foldr insort_score xs []). snd z \<noteq> NaN"
    by (simp_all add: set_foldr_insort_score)
  then show ?case
    using insort_score_refines [of R "foldr insort_score xs []" x] by simp
qed

lemma sort_desc_ranked:
  assumes "sorted_wrt (<) (map fst xs)" and "\<forall>z \<in> set xs. snd z \<noteq> NaN"
  shows "sorted_wrt ranked_before (sort_desc xs)"
proof -
  have "sorted_wrt (\<lambda>a b. fst a < fst b) xs"
    using assms(1) by (simp add: sorted_wrt_map)
  then have "sorted_wrt (\<lambda>a b. fst b < fst a) (rev xs)"
    by (simp add: sorted_wrt_rev)
  moreover have "\<forall>z \<in> set (rev xs). snd z \<noteq> NaN" using assms(2) by simp
  ultimately have "sorted_wrt (\<lambda>a b. flt (snd a) (snd b) \<or> (snd a = snd b \<and> fst b < fst a))
               (foldr insort_score (rev xs) [])"
    by (rule foldr_insort_score_refines)
  then have srt: "sorted_wrt (\<lambda>a b. flt (snd b) (snd a) \<or> (snd b = snd a \<and> fst a < fst b))
               (sort_desc xs)"
    by (simp add: sorted_wrt_rev sort_desc_def)
  have nn: "\<forall>z \<in> set (sort_desc xs). snd z \<noteq> NaN"
    using assms(2) by (simp add: set_sort_desc)
  show ?thesis
  proof (rule sorted_wrt_mono_rel [OF _ srt])
    fix a b
    assume "a \<in> set (sort_desc xs)" and "b \<in> set (sort_desc xs)"
      and "flt (snd b) (snd a) \<or> (snd b = snd a \<and> fst a < fst b)"
    with nn show "ranked_before a b"
      by (auto simp: ranked_before_def feq_def)
  qed
qed

lemma semantic_search_returns:
  assumes "\<forall>c \<in> set cs. length c = length q"
  shows "\<exists>sims. similarities_from q 0 cs = Inr sims \<and>
           semantic_search q cs k = Inr (slice_to (sort_desc sims) k)"
proof -
  from assms obtain sims where sims: "similarities_from q 0 cs = Inr sims"
    using similarities_from_returns by blast
  then have "semantic_search q cs k = Inr (slice_to (sort_desc sims) k)"
    by (cases cs) (simp_all add: semantic_search_def slice_to_def sort_desc_def)
  with sims show ?thesis by blast
qed

lemma semantic_search_Inr:
  assumes "semantic_search q cs k = Inr res"
  shows "\<exists>sims. similarities_from q 0 cs = Inr sims \<and> res = slice_to (sort_desc sims) k"
proof (cases "cs = []")
  case True
  with assms have "res = []" by (simp add: semantic_search_def)
  with True show ?thesis by (simp add: slice_to_def sort_desc_def)
next
  case False
  with assms show ?thesis
    by (auto simp: semantic_search_def split: sum.splits)
qed

lemma set_slice_to: "set (slice_to xs k) \<subseteq> set xs"
  by (simp add: slice_to_def set_take_subset)

lemma sorted_wrt_slice_to: "sorted_wrt P xs \<Longrightarrow> sorted_wrt P (slice_to xs k)"
  by (simp add: slice_to_def sorted_wrt_take)

subsection \<open>Arithmetic on powers of two\<close>

lemma fmul_pow2: "m + n \<le> 1023 \<Longrightarrow> fmul (Fin (2 ^ m)) (Fin (2 ^ n)) = Fin (2 ^ (m + n))"
  by (simp add: fmul_def power_add [symmetric] rnd_pow2 del: power_numeral)

lemma fmul_pow2_overflow: "1024 \<le> m + n \<Longrightarrow> fmul (Fin (2 ^ m)) (Fin (2 ^ n)) = PInf"
proof -
  assume "1024 \<le> m + n"
  then have "(2::real) ^ 1024 \<le> 2 ^ (m + n)"
    by (intro power_increasing) simp_all
  then have "rnd (2 ^ (m + n)) = PInf" by (rule rnd_overflow)
  then show ?thesis by (simp add: fmul_def power_add del: power_numeral)
qed

lemma fmul_zero [simp]: "fmul (Fin x) (Fin 0) = Fin 0" "fmul (Fin 0) (Fin x) = Fin 0"
  by (simp_all add: fmul_def)

lemma fadd_zero_pow2:
  "n \<le> 1023 \<Longrightarrow> fadd (Fin 0) (Fin (2 ^ n)) = Fin (2 ^ n)"
  "n \<le> 1023 \<Longrightarrow> fadd (Fin (2 ^ n)) (Fin 0) = Fin (2 ^ n)"
  by (simp_all add: fadd_def rnd_pow2 del: power_numeral)

lemma fadd_zero_zero [simp]: "fadd (Fin 0) (Fin 0) = Fin 0"
  by (simp add: fadd_def)

lemma fadd_PInf [simp]: "fadd (Fin x) PInf = PInf" "fadd PInf (Fin x) = PInf"
  by (simp_all add: fadd_def infinite_double_def)

lemma fsqrt_pow2: "n \<le> 1023 \<Longrightarrow> fsqrt (Fin (2 ^ (n + n))) = Fin (2 ^ n)"
proof -
  assume n: "n \<le> 1023"
  have "sqrt ((2::real) ^ (n + n)) = 2 ^ n"
    by (simp add: power_add real_sqrt_mult del: power_numeral)
  then show ?thesis using n by (simp add: fsqrt_def rnd_pow2 del: power_numeral)
qed

lemma fsqrt_special [simp]: "fsqrt PInf = PInf" "fsqrt (Fin 0) = Fin 0" "fsqrt (Fin 1) = Fin 1"
  by (simp_all add: fsqrt_def)

lemma fdiv_pow2_self: "fdiv (Fin (2 ^ n)) (Fin (2 ^ n)) = Fin 1"
  by (simp add: fdiv_def del: power_numeral)

lemma fdiv_zero [simp]: "y \<noteq> 0 \<Longrightarrow> fdiv (Fin 0) (Fin y) = Fin 0"
  by (simp add: fdiv_def)

lemma fdiv_PInf_PInf [simp]: "fdiv PInf PInf = NaN"
  by (simp add: fdiv_def infinite_double_def)

lemma fmul_pow2_PInf [simp]: "fmul (Fin (2 ^ n)) PInf = PInf"
  by (simp add: fmul_def negative_def del: power_numeral)

subsection \<open>A query whose products overflow\<close>

lemma score_0: "cosine_similarity [Fin (2 ^ 500), Fin 0] [Fin 0, Fin 1] = Inr (Fin 0)"
proof -
  have nq: "np_linalg_norm [Fin (2 ^ 500), Fin 0] = Fin (2 ^ 500)"
    using fmul_pow2 [of 500 500] fadd_zero_pow2 [of 1000] fsqrt_pow2 [of 500]
    by (simp add: np_linalg_norm_def dot_value_def del: power_numeral)
  have nc: "np_linalg_norm [Fin 0, Fin 1] = Fin 1"
    using fmul_pow2 [of 0 0] fadd_zero_pow2 [of 0]
    by (simp add: np_linalg_norm_def dot_value_def del: power_numeral)
  have d: "dot_value [Fin (2 ^ 500), Fin 0] [Fin 0, Fin 1] = Fin 0"
    by (simp add: dot_value_def del: power_numeral)
  show ?thesis
    using fmul_pow2 [of 500 0]
    by (simp add: cosine_similarity_def np_dot_def nq nc d del: power_numeral)
qed


lemma score_1: "cosine_similarity [Fin (2 ^ 500), Fin 0] [Fin (2 ^ 600), Fin 0] = Inr NaN"
proof -
  have nq: "np_linalg_norm [Fin (2 ^ 500), Fin 0] = Fin (2 ^ 500)"
    using fmul_pow2 [of 500 500] fadd_zero_pow2 [of 1000] fsqrt_pow2 [of 500]
    by (simp add: np_linalg_norm_def dot_value_def del: power_numeral)
  have nc: "np_linalg_norm [Fin (2 ^ 600), Fin 0] = PInf"
    using fmul_pow2_overflow [of 600 600]
    by (simp add: np_linalg_norm_def dot_value_def del: power_numeral)
  have d: "dot_value [Fin (2 ^ 500), Fin 0] [Fin (2 ^ 600), Fin 0] = PInf"
    using fmul_pow2_overflow [of 500 600]
    by (simp add: dot_value_def del: power_numeral)
  show ?thesis
    by (simp add: cosine_similarity_def np_dot_def nq nc d del: power_numeral)
qed

lemma score_2: "cosine_similarity [Fin (2 ^ 500), Fin 0] [Fin 1, Fin 0] = Inr (Fin 1)"
proof -
  have nq: "np_linalg_norm [Fin (2 ^ 500), Fin 0] = Fin (2 ^ 500)"
    using fmul_pow2 [of 500 500] fadd_zero_pow2 [of 1000] fsqrt_pow2 [of 500]
    by (simp add: np_linalg_norm_def dot_value_def del: power_numeral)
  have nc: "np_linalg_norm [Fin 1, Fin 0] = Fin 1"
    using fmul_pow2 [of 0 0] fadd_zero_pow2 [of 0]
    by (simp add: np_linalg_norm_def dot_value_def del: power_numeral)
  have d: "dot_value [Fin (2 ^ 500), Fin 0] [Fin 1, Fin 0] = Fin (2 ^ 500)"
    using fmul_pow2 [of 500 0] fadd_zero_pow2 [of 500]
    by (simp add: dot_value_def del: power_numeral)
  show ?thesis
    using fmul_pow2 [of 500 0] fdiv_pow2_self [of 500]
    by (simp add: cosine_similarity_def np_dot_def nq nc d del: power_numeral)
qed

text \<open>
  With the query \<open>[2 ^ 500, 0]\<close> the candidate \<open>[2 ^ 600, 0]\<close> overflows: its dot product
  and its norm are infinite and its score is NaN. No comparison with NaN holds, the sort
  moves nothing, and the list comes back in the order of the candidates: the score
  \<open>0.0\<close> first and the score \<open>1.0\<close> last.
\<close>

theorem semantic_search_nan_counterexample:
  "semantic_search [Fin (2 ^ 500), Fin 0] [[Fin 0, Fin 1], [Fin (2 ^ 600), Fin 0], [Fin 1, Fin 0]] 3 =
     Inr [(0, Fin 0), (1, NaN), (2, Fin 1)] \<and>
   \<not> sorted_wrt ranked_before [(0, Fin 0), (1, NaN), (2, Fin 1)] \<and>
   flt (Fin 0) (Fin 1)"
  by (simp add: semantic_search_def score_0 score_1 score_2 sort_desc_def slice_to_def
        ranked_before_def flt_def feq_def del: power_numeral)

subsection \<open>The ranking\<close>

text \<open>
  Claim C1, amended to scores other than NaN (and \<open>0 \<le> k\<close>, which covers the \<open>k \<ge> 1\<close> of
  the ranker). An empty candidate list gives the empty result. When every candidate has
  the dimension of the query, \<^verbatim>\<open>semantic_search\<close> returns a list; and when no candidate
  scores NaN, every list it returns has length \<open>min k n\<close> for \<open>n\<close> candidates, is ordered
  by descending score with the lower index first among equal scores, and pairs each
  index with the cosine similarity of that candidate.
\<close>

theorem semantic_search_ranked:
  "0 \<le> k \<Longrightarrow> \<forall>c \<in> set cs. cosine_similarity q c \<noteq> Inr NaN \<Longrightarrow>
     semantic_search q [] k = Inr [] \<and>
     ((\<forall>c \<in> set cs. length c = length q) \<longrightarrow> (\<exists>res. semantic_search q cs k = Inr res)) \<and>
     (\<forall>res. semantic_search q cs k = Inr res \<longrightarrow>
        length res = min (nat k) (length cs) \<and>
        sorted_wrt ranked_before res \<and>
        (\<forall>(i, s) \<in> set res. i < length cs \<and> cosine_similarity q (cs ! i) = Inr s))"
proof (intro conjI allI impI)
  show "semantic_search q [] k = Inr []"
    by (simp add: semantic_search_def)
next
  assume "\<forall>c \<in> set cs. length c = length q"
  then show "\<exists>res. semantic_search q cs k = Inr res"
    using semantic_search_returns [of cs q k] by blast
next
  fix res
  assume k: "0 \<le> k" and nn: "\<forall>c \<in> set cs. cosine_similarity q c \<noteq> Inr NaN"
    and res: "semantic_search q cs k = Inr res"
  from res obtain sims where sims: "similarities_from q 0 cs = Inr sims"
    and res_eq: "res = slice_to (sort_desc sims) k"
    using semantic_search_Inr by blast
  have len: "length sims = length cs" using sims by (rule similarities_from_length)
  show "length res = min (nat k) (length cs)"
    using k len by (simp add: res_eq slice_to_def length_sort_desc)
  have idx: "sorted_wrt (<) (map fst sims)"
    using similarities_from_Inr [OF sims] by simp
  have "\<forall>z \<in> set sims. snd z \<noteq> NaN"
  proof
    fix z assume z: "z \<in> set sims"
    then have "(fst z, snd z) \<in> set sims" by simp
    with sims have "fst z < length cs \<and> cosine_similarity q (cs ! fst z) = Inr (snd z)"
      by (rule similarities_from_members)
    with nn show "snd z \<noteq> NaN" by (metis nth_mem)
  qed
  with idx show "sorted_wrt ranked_before res"
    unfolding res_eq by (intro sorted_wrt_slice_to sort_desc_ranked)
  show "\<forall>(i, s) \<in> set res. i < length cs \<and> cosine_similarity q (cs ! i) = Inr s"
  proof (clarify)
    fix i s assume "(i, s) \<in> set res"
    then have "(i, s) \<in> set sims"
      using set_slice_to [of "sort_desc sims" k] by (auto simp: res_eq set_sort_desc)
    with sims show "i < length cs \<and> cosine_similarity q (cs ! i) = Inr s"
      by (rule similarities_from_members)
  qed
qed

lemma score_unit:
  "cosine_similarity [Fin 1, Fin 0] [Fin 0, Fin 1] = Inr (Fin 0)"
  "cosine_similarity [Fin 1, Fin 0] [Fin 1, Fin 0] = Inr (Fin 1)"
  using fmul_pow2 [of 0 0] fadd_zero_pow2 [of 0] fdiv_pow2_self [of 0]
  by (simp_all add: cosine_similarity_def np_dot_def np_linalg_norm_def dot_value_def)

theorem semantic_search_ranked_witness:
  "(0::int) \<le> 2 \<and>
   list_all (\<lambda>c. cosine_similarity [Fin 1, Fin 0] c \<noteq> Inr NaN)
     [[Fin 0, Fin 1], [Fin 1, Fin 0], [Fin 0, Fin 1]] \<and>
   semantic_search [Fin 1, Fin 0] [[Fin 0, Fin 1], [Fin 1, Fin 0], [Fin 0, Fin 1]] 2 =
     Inr [(1, Fin 1), (0, Fin 0)] \<and>
   length [(1 :: nat, Fin 1), (0, Fin 0)] =
     min (nat 2) (length [[Fin 0, Fin 1], [Fin 1, Fin 0], [Fin 0, Fin 1]]) \<and>
   sorted_wrt ranked_before [(1, Fin 1), (0, Fin 0)]"
  using semantic_search_ranked [of 2 "[[Fin 0, Fin 1], [Fin 1, Fin 0], [Fin 0, Fin 1]]" "[Fin 1, Fin 0]"]
  by (simp add: semantic_search_def score_unit sort_desc_def slice_to_def flt_def)

text \<open>
  Claim C6, amended. The code checks \<open>top_k\<close> nowhere: for \<open>k < 1\<close> and candidates of the
  query's dimension \<^verbatim>\<open>semantic_search\<close> returns the slice \<^verbatim>\<open>similarities[:k]\<close> of the
  full ranking, which is empty for \<open>k = 0\<close> and is the ranking without its last \<open>- k\<close>
  entries for a negative \<open>k\<close>.
\<close>

theorem semantic_search_nonpositive_k:
  "k < 1 \<Longrightarrow> \<forall>c \<in> set cs. length c = length q \<Longrightarrow>
     \<exists>full. semantic_search q cs (int (length cs)) = Inr full \<and>
            length full = length cs \<and>
            semantic_search q cs k =
              Inr (if k = 0 then [] else take (nat (int (length cs) + k)) full)"
proof -
  assume k: "k < 1" and dims: "\<forall>c \<in> set cs. length c = length q"
  from dims obtain sims where sims: "similarities_from q 0 cs = Inr sims"
    and at_n: "semantic_search q cs (int (length cs)) = Inr (slice_to (sort_desc sims) (int (length cs)))"
    using semantic_search_returns [of cs q "int (length cs)"] by blast
  from dims sims have at_k: "semantic_search q cs k = Inr (slice_to (sort_desc sims) k)"
    using semantic_search_returns [of cs q k] by auto
  have len: "length (sort_desc sims) = length cs"
    using similarities_from_length [OF sims] by (simp add: length_sort_desc)
  then have full: "slice_to (sort_desc sims) (int (length cs)) = sort_desc sims"
    by (simp add: slice_to_def)
  have "slice_to (sort_desc sims) k =
          (if k = 0 then [] else take (nat (int (length cs) + k)) (sort_desc sims))"
    using k len by (simp add: slice_to_def)
  with at_n at_k full len show ?thesis by simp
qed

theorem semantic_search_nonpositive_k_witness:
  "(- 1 :: int) < 1 \<and>
   list_all (\<lambda>c. length c = length [Fin 1, Fin 0]) [[Fin 0, Fin 1], [Fin 1, Fin 0]] \<and>
   semantic_search [Fin 1, Fin 0] [[Fin 0, Fin 1], [Fin 1, Fin 0]]
       (int (length [[Fin 0, Fin 1], [Fin 1, Fin 0]])) = Inr [(1, Fin 1), (0, Fin 0)] \<and>
   semantic_search [Fin 1, Fin 0] [[Fin 0, Fin 1], [Fin 1, Fin 0]] (- 1) = Inr [(1, Fin 1)]"
  using semantic_search_nonpositive_k [of "- 1" "[[Fin 0, Fin 1], [Fin 1, Fin 0]]" "[Fin 1, Fin 0]"]
  by (simp add: semantic_search_def score_unit sort_desc_def slice_to_def flt_def)

text \<open>
  With \<open>k = 0\<close> the call returns the empty list; it does not fail.
\<close>

theorem semantic_search_zero_k_counterexample:
  "(0 :: int) < 1 \<and> semantic_search [Fin 1, Fin 0] [[Fin 1, Fin 0]] 0 = Inr []"
  by (simp add: semantic_search_def score_unit sort_desc_def slice_to_def)

section \<open>The range of the score\<close>

subsection \<open>The Cauchy-Schwarz inequality on lists\<close>






subsection \<open>Scores of exactly computed vectors\<close>





subsection \<open>The vector of ones against itself\<close>








section \<open>Averaging embeddings\<close>

text \<open>
  Claim C3, amended. For the empty list of vectors \<^verbatim>\<open>combine_embeddings\<close> returns the
  empty vector, whatever the weights are; it raises nothing.
\<close>

theorem combine_embeddings_empty: "combine_embeddings [] weights = Inr []"
  by (simp add: combine_embeddings_def)

theorem combine_embeddings_empty_witness:
  "combine_embeddings [] (Some [Fin 1, Fin 2]) = Inr []"
  using combine_embeddings_empty [of "Some [Fin 1, Fin 2]"] .

text \<open>
  The call on the empty list is not an error.
\<close>

theorem combine_embeddings_empty_counterexample:
  "\<not> isl (combine_embeddings [] None)"
  by (simp add: combine_embeddings_def)

subsection \<open>Uniform weights\<close>




subsection \<open>One tenth, three times\<close>








section \<open>The provider methods\<close>

lemma strip_empty_iff: "strip text = [] \<longleftrightarrow> (\<forall>c \<in> set text. isspace c)"
proof
  assume "strip text = []"
  then have all: "\<forall>c \<in> set (dropWhile isspace text). isspace c"
    by (simp add: strip_def dropWhile_eq_Nil_conv)
  have "dropWhile isspace text = []"
  proof (rule ccontr)
    assume ne: "dropWhile isspace text \<noteq> []"
    then have "\<not> isspace (hd (dropWhile isspace text))" by (rule hd_dropWhile)
    moreover have "hd (dropWhile isspace text) \<in> set (dropWhile isspace text)"
      using ne by simp
    ultimately show False using all by blast
  qed
  then show "\<forall>c \<in> set text. isspace c" by (simp add: dropWhile_eq_Nil_conv)
next
  assume "\<forall>c \<in> set text. isspace c"
  then have empty: "dropWhile isspace text = []" by (simp add: dropWhile_eq_Nil_conv)
  show "strip text = []" unfolding strip_def empty by simp
qed

text \<open>
  Claim C4. For a text that is empty or consists of whitespace only, \<^verbatim>\<open>embed_text\<close>
  returns the zero vector of \<^verbatim>\<open>self.dimensions\<close> entries, logs one warning, raises
  nothing and leaves the record of provider calls as it was.
\<close>

theorem embed_text_blank:
  "\<forall>c \<in> set text. isspace c \<Longrightarrow>
     embed_text self text w =
       (Inr (replicate (nat (dimensions self)) (Fin 0)),
        w\<lparr>logged := logged w @ [Log WARNING (py ''Empty text provided for embedding'')]\<rparr>) \<and>
     provider_calls (snd (embed_text self text w)) = provider_calls w"
  by (simp add: embed_text_def strip_empty_iff log_call_def)

theorem embed_text_blank_witness:
  "list_all isspace [32, 9, 10] \<and>
   embed_text (init \<lparr>openai_model = py ''m'', embedding_dimensions = 3\<rparr>
                 (\<lambda>t. Inr [Fin 1, Fin 2, Fin 3]))
       [32, 9, 10] \<lparr>provider_calls = [], logged = []\<rparr> =
     (Inr [Fin 0, Fin 0, Fin 0],
      \<lparr>provider_calls = [], logged = [Log WARNING (py ''Empty text provided for embedding'')]\<rparr>)"
  using embed_text_blank [of "[32, 9, 10]"
      "init \<lparr>openai_model = py ''m'', embedding_dimensions = 3\<rparr> (\<lambda>t. Inr [Fin 1, Fin 2, Fin 3])"
      "\<lparr>provider_calls = [], logged = []\<rparr>"]
  by (simp add: isspace_def init_def numeral_3_eq_3)

lemma health_check_text: "strip (py ''health check'') \<noteq> []"
  by (simp add: py_def strip_def isspace_def)

text \<open>
  Claim C10. Whatever the provider does with the test text, \<^verbatim>\<open>health_check\<close> returns a
  dictionary and raises nothing: the healthy one, with model, dimensions and the length of
  the test embedding, when the provider returns; the unhealthy one, with the text of the
  exception, model and dimensions, when the provider raises.
\<close>

theorem health_check_returns:
  "fst (health_check settings self w) =
     Inr (case aembed_query self (py ''health check'') of
            Inr test_embedding \<Rightarrow>
              [(''status'', PyStr (py ''healthy'')),
               (''model'', PyStr (openai_model settings)),
               (''dimensions'', PyInt (dimensions self)),
               (''test_embedding_length'', PyInt (int (length test_embedding)))]
          | Inl e \<Rightarrow>
              [(''status'', PyStr (py ''unhealthy'')),
               (''error'', PyStr (str_of e)),
               (''model'', PyStr (openai_model settings)),
               (''dimensions'', PyInt (dimensions self))])"
  using health_check_text
  by (simp add: health_check_def embed_text_def Let_def split: sum.splits)

theorem health_check_returns_witness:
  "fst (health_check \<lparr>openai_model = py ''m'', embedding_dimensions = 3\<rparr>
          \<lparr>aembed_query = (\<lambda>t. Inr [Fin 1, Fin 2, Fin 3]), dimensions = 3\<rparr>
          \<lparr>provider_calls = [], logged = []\<rparr>) =
     Inr [(''status'', PyStr (py ''healthy'')), (''model'', PyStr (py ''m'')),
          (''dimensions'', PyInt 3), (''test_embedding_length'', PyInt 3)] \<and>
   fst (health_check \<lparr>openai_model = py ''m'', embedding_dimensions = 3\<rparr>
          \<lparr>aembed_query = (\<lambda>t. Inl (PyException (py ''down''))), dimensions = 3\<rparr>
          \<lparr>provider_calls = [], logged = []\<rparr>) =
     Inr [(''status'', PyStr (py ''unhealthy'')), (''error'', PyStr (py ''down'')),
          (''model'', PyStr (py ''m'')), (''dimensions'', PyInt 3)]"
  using health_check_returns [of "\<lparr>openai_model = py ''m'', embedding_dimensions = 3\<rparr>"
      "\<lparr>aembed_query = (\<lambda>t. Inr [Fin 1, Fin 2, Fin 3]), dimensions = 3\<rparr>"
      "\<lparr>provider_calls = [], logged = []\<rparr>"]
    health_check_returns [of "\<lparr>openai_model = py ''m'', embedding_dimensions = 3\<rparr>"
      "\<lparr>aembed_query = (\<lambda>t. Inl (PyException (py ''down''))), dimensions = 3\<rparr>"
      "\<lparr>provider_calls = [], logged = []\<rparr>"]
  by simp

end
